theory Spec2Isabelle
  imports Main "HOL-Library.Sublist" "HOL-Library.Char_ord" "HOL-Library.List_Lexorder"
begin

section \<open>Strings of the host language\<close>

text \<open>
  The dashboard is TypeScript; its strings are modelled by \<^typ>\<open>string\<close>. The model covers
  the ASCII range: the white space that \<open>String.prototype.trim\<close> strips is TAB, LF, VT,
  FF, CR and SPACE, the case mappings move only the letters \<open>a..z\<close> and \<open>A..Z\<close>, and
  every other character is left alone and is not white space.
\<close>

definition isWhiteSpace :: "char \<Rightarrow> bool" where
  "isWhiteSpace c = (c \<in> set [CHR 0x09, CHR 0x0A, CHR 0x0B, CHR 0x0C, CHR 0x0D, CHR '' ''])"

definition trimStart :: "string \<Rightarrow> string" where
  "trimStart s = dropWhile isWhiteSpace s"

definition trimEnd :: "string \<Rightarrow> string" where
  "trimEnd s = rev (dropWhile isWhiteSpace (rev s))"

text \<open>\<open>s.trim()\<close>\<close>

definition trim :: "string \<Rightarrow> string" where
  "trim s = trimEnd (trimStart s)"

definition caseTable :: "(char \<times> char) list" where
  "caseTable = zip ''abcdefghijklmnopqrstuvwxyz'' ''ABCDEFGHIJKLMNOPQRSTUVWXYZ''"

definition toUpperChar :: "char \<Rightarrow> char" where
  "toUpperChar c = (case map_of caseTable c of Some u \<Rightarrow> u | None \<Rightarrow> c)"

definition toLowerChar :: "char \<Rightarrow> char" where
  "toLowerChar c = (case map_of (map prod.swap caseTable) c of Some l \<Rightarrow> l | None \<Rightarrow> c)"

text \<open>\<open>s.toUpperCase()\<close> and \<open>s.toLowerCase()\<close>\<close>

definition toUpperCase :: "string \<Rightarrow> string" where
  "toUpperCase s = map toUpperChar s"

definition toLowerCase :: "string \<Rightarrow> string" where
  "toLowerCase s = map toLowerChar s"

text \<open>
  \<open>s.includes(q)\<close>: the needle \<open>q\<close> starts at some position of \<open>s\<close>.
\<close>

fun str_includes :: "string \<Rightarrow> string \<Rightarrow> bool" where
  "str_includes [] q = (q = [])"
| "str_includes (c # s) q = (prefix q (c # s) \<or> str_includes s q)"

text \<open>\<open>parts.join(sep)\<close>\<close>

fun join :: "string \<Rightarrow> string list \<Rightarrow> string" where
  "join sep [] = []"
| "join sep [x] = x"
| "join sep (x # y # ys) = x @ sep @ join sep (y # ys)"

text \<open>
  \<open>Array.from(new Set(xs))\<close>: a \<open>Set\<close> keeps the first occurrence of each value, in
  insertion order, and compares strings exactly.
\<close>

definition set_add :: "'a list \<Rightarrow> 'a \<Rightarrow> 'a list" where
  "set_add acc x = (if x \<in> set acc then acc else acc @ [x])"

definition new_Set :: "'a list \<Rightarrow> 'a list" where
  "new_Set xs = foldl set_add [] xs"

text \<open>
  \<open>xs.sort(cmp)\<close> is a stable sort: elements that the comparator ranks equal keep their
  relative order. It is modelled by stable insertion from the right.
\<close>

fun insert_by :: "('a \<Rightarrow> 'a \<Rightarrow> int) \<Rightarrow> 'a \<Rightarrow> 'a list \<Rightarrow> 'a list" where
  "insert_by cmp x [] = [x]"
| "insert_by cmp x (y # ys) = (if cmp x y \<le> 0 then x # y # ys else y # insert_by cmp x ys)"

definition sort_by :: "('a \<Rightarrow> 'a \<Rightarrow> int) \<Rightarrow> 'a list \<Rightarrow> 'a list" where
  "sort_by cmp xs = foldr (insert_by cmp) xs []"

text \<open>
  \<open>a.localeCompare(b, undefined, { sensitivity: 'base' })\<close> belongs to the runtime, so
  \<open>uniqSorted\<close> below takes the comparator as a parameter. \<open>localeCompare_base\<close> is the
  instance used for concrete inputs: on letters, digits and spaces the base-sensitivity
  collation compares the case-folded strings lexicographically.
\<close>

definition localeCompare_base :: "string \<Rightarrow> string \<Rightarrow> int" where
  "localeCompare_base a b =
     (if toLowerCase a < toLowerCase b then - 1
      else if toLowerCase a = toLowerCase b then 0 else 1)"

section \<open>types.ts\<close>

record ProgramRow =
  Campus :: string
  College :: string
  Program :: string
  Major :: string
  Level :: string
  COPC_Status :: string
  COPC_No :: string
  Contents_Notation :: string
  Accreditation :: string
  CMO_PSG :: string
  BOR_Resolution :: string
  Dean :: string

record FilterState =
  colleges :: "string list"
  levels :: "string list"
  copcStatuses :: "string list"
  accreditations :: "string list"
  deans :: "string list"
  search :: string
  hideBlankMajor :: bool

section \<open>utils.ts: normalisation and search\<close>

definition EXPECTED_HEADERS :: "string list" where
  "EXPECTED_HEADERS =
     [''Campus'', ''College'', ''Program'', ''Major'', ''Level'', ''COPC Status'', ''COPC No.'',
      ''Contents Notation'', ''Accreditation'', ''CMO / PSG'', ''BOR Resolution'', ''Dean'']"

text \<open>
  A cell as \<open>sheet_to_json\<close> hands it over (\<open>unknown\<close> in the source). A number carries
  its \<open>String(value)\<close> rendering, as does any other object.
\<close>

datatype cell = Undefined | Str string | Num string | Boolean bool | Other string

fun normalizeCell :: "cell \<Rightarrow> string" where
  "normalizeCell Undefined = []"
| "normalizeCell (Str s) = trim s"
| "normalizeCell (Num s) = s"
| "normalizeCell (Boolean b) = (if b then ''TRUE'' else ''FALSE'')"
| "normalizeCell (Other s) = trim s"

definition normalizeAccreditation :: "string \<Rightarrow> string" where
  "normalizeAccreditation raw =
     (let v = trim raw in
      if v = [] then ''Unknown''
      else let upper = toUpperCase v in
        if str_includes upper ''LEVEL IV'' then ''Level IV''
        else if str_includes upper ''LEVEL III'' then ''Level III''
        else if str_includes upper ''LEVEL II'' then ''Level II''
        else if str_includes upper ''LEVEL I'' then ''Level I''
        else if str_includes upper ''CANDIDATE'' then ''Candidate''
        else v)"

text \<open>
  The rule as the specification words it: a priority table of keyword and label, the first
  keyword found in the upper-cased trimmed text decides.
\<close>

definition accreditationPriority :: "(string \<times> string) list" where
  "accreditationPriority =
     [(''LEVEL IV'', ''Level IV''), (''LEVEL III'', ''Level III''), (''LEVEL II'', ''Level II''),
      (''LEVEL I'', ''Level I''), (''CANDIDATE'', ''Candidate'')]"

definition normalizeAccreditation_spec :: "string \<Rightarrow> string" where
  "normalizeAccreditation_spec raw =
     (let v = trim raw in
      if v = [] then ''Unknown''
      else case find (\<lambda>(keyword, label). sublist keyword (toUpperCase v)) accreditationPriority of
             Some (keyword, label) \<Rightarrow> label
           | None \<Rightarrow> v)"

text \<open>The array literal of \<open>includesSearch\<close>: the fields it searches, in its order.\<close>

definition searchedFields :: "'a ProgramRow_scheme \<Rightarrow> string list" where
  "searchedFields row =
     [Program row, Major row, COPC_No row, CMO_PSG row, BOR_Resolution row,
      Contents_Notation row, College row, Level row, COPC_Status row, Accreditation row,
      Dean row]"

text \<open>
  \<open>includesSearch\<close>: \<open>.filter(Boolean)\<close> on an array of strings drops the empty ones.
\<close>

definition includesSearch :: "'a ProgramRow_scheme \<Rightarrow> string \<Rightarrow> bool" where
  "includesSearch row q =
     (let query = toLowerCase (trim q) in
      if query = [] then True
      else let haystack =
             toLowerCase (join '' | '' (filter (\<lambda>s. s \<noteq> []) (searchedFields row)))
           in str_includes haystack query)"

text \<open>
  The haystack as the specification words it: the fields joined by the pipe separator, an
  empty field skipped without leaving an empty segment.
\<close>

fun pipeJoined :: "string list \<Rightarrow> string" where
  "pipeJoined [] = []"
| "pipeJoined (f # fs) =
     (if f = [] then pipeJoined fs
      else if pipeJoined fs = [] then f
      else f @ '' | '' @ pipeJoined fs)"

definition uniqSorted :: "(string \<Rightarrow> string \<Rightarrow> int) \<Rightarrow> string list \<Rightarrow> string list" where
  "uniqSorted localeCompare values =
     sort_by localeCompare (new_Set (filter (\<lambda>v. v \<noteq> []) (map trim values)))"

section \<open>Ingestion\<close>

definition validateHeaders :: "string list \<Rightarrow> string option" where
  "validateHeaders headers =
     (let trimmed = map trim headers;
          missing = filter (\<lambda>h. h \<notin> set trimmed) EXPECTED_HEADERS
      in if missing \<noteq> [] then Some (''Missing expected columns: '' @ join '', '' missing)
         else None)"

text \<open>\<open>new Error(message)\<close>, the only kind of error the ingestion raises.\<close>

datatype error = Error string

text \<open>
  A row object of \<open>sheet_to_json\<close>: its keys, in order, with their cells. \<open>r[key]\<close> is
  \<open>undefined\<close> for a key the object does not have.
\<close>

type_synonym sheet_row = "(string \<times> cell) list"

definition get_cell :: "sheet_row \<Rightarrow> string \<Rightarrow> cell" where
  "get_cell r key = (case map_of r key of Some v \<Rightarrow> v | None \<Rightarrow> Undefined)"

definition to_ProgramRow :: "sheet_row \<Rightarrow> ProgramRow" where
  "to_ProgramRow r =
     \<lparr>Campus = normalizeCell (get_cell r ''Campus''),
      College = normalizeCell (get_cell r ''College''),
      Program = normalizeCell (get_cell r ''Program''),
      Major = normalizeCell (get_cell r ''Major''),
      Level = normalizeCell (get_cell r ''Level''),
      COPC_Status = normalizeCell (get_cell r ''COPC Status''),
      COPC_No = normalizeCell (get_cell r ''COPC No.''),
      Contents_Notation = normalizeCell (get_cell r ''Contents Notation''),
      Accreditation = normalizeCell (get_cell r ''Accreditation''),
      CMO_PSG = normalizeCell (get_cell r ''CMO / PSG''),
      BOR_Resolution = normalizeCell (get_cell r ''BOR Resolution''),
      Dean = normalizeCell (get_cell r ''Dean'')\<rparr>"

text \<open>
  What the file reader and \<open>XLSX.read\<close> make of an uploaded file: the read fails, the
  workbook parser throws, or there is a workbook, given by its sheets in \<open>SheetNames\<close>
  order, each with the row objects that \<open>sheet_to_json\<close> yields for it.
\<close>

datatype upload = Unreadable | Corrupt string | Workbook "(string \<times> sheet_row list) list"

fun parseXlsxFirstSheet :: "upload \<Rightarrow> error + ProgramRow list" where
  "parseXlsxFirstSheet Unreadable = Inl (Error ''Failed to read the file.'')"
| "parseXlsxFirstSheet (Corrupt msg) = Inl (Error msg)"
| "parseXlsxFirstSheet (Workbook []) = Inl (Error ''No sheets found in the workbook.'')"
| "parseXlsxFirstSheet (Workbook ((firstSheetName, rowsArr) # others)) =
     (if firstSheetName = [] then Inl (Error ''No sheets found in the workbook.'')
      else case rowsArr of
             [] \<Rightarrow> Inr []
           | first # later \<Rightarrow>
               (case validateHeaders (map fst first) of
                  Some headerErr \<Rightarrow> Inl (Error headerErr)
                | None \<Rightarrow> Inr (map to_ProgramRow rowsArr)))"

section \<open>The application state\<close>

record LoadedData =
  raw :: "ProgramRow list"
  bambang :: "ProgramRow list"
  removedNonBambangCount :: int

definition DEFAULT_FILTERS :: FilterState where
  "DEFAULT_FILTERS =
     \<lparr>colleges = [], levels = [], copcStatuses = [], accreditations = [], deans = [],
      search = [], hideBlankMajor = False\<rparr>"

record AppState =
  loaded :: "LoadedData option"
  filters :: FilterState
  error :: "string option"

definition onFileSelected :: "upload option \<Rightarrow> AppState \<Rightarrow> AppState" where
  "onFileSelected file st =
     (let st = st\<lparr>error := None\<rparr> in
      case file of
        None \<Rightarrow> st
      | Some f \<Rightarrow>
          (case parseXlsxFirstSheet f of
             Inr parsed \<Rightarrow>
               (let kept = filter (\<lambda>r. toLowerCase (trim (Campus r)) = ''bambang'') parsed;
                    removed = int (length parsed) - int (length kept)
                in st\<lparr>loaded := Some \<lparr>raw = parsed, bambang = kept,
                                       removedNonBambangCount = removed\<rparr>,
                      filters := DEFAULT_FILTERS\<rparr>)
           | Inl (Error message) \<Rightarrow> st\<lparr>loaded := None, error := Some message\<rparr>))"

section \<open>Filtering\<close>

text \<open>A row with its derived field, \<open>{ ...r, AccreditationNormalized }\<close>.\<close>

record DerivedRow = ProgramRow +
  AccreditationNormalized :: string

definition rowsWithDerived :: "ProgramRow list \<Rightarrow> DerivedRow list" where
  "rowsWithDerived rows =
     map (\<lambda>r. ProgramRow.extend r
                (DerivedRow.fields (normalizeAccreditation (Accreditation r)))) rows"

definition matchesMulti :: "string list \<Rightarrow> string \<Rightarrow> bool" where
  "matchesMulti selected v = (if selected = [] then True else v \<in> set selected)"

text \<open>The callback of \<open>rowsWithDerived.filter\<close>, one early return per line.\<close>

definition keepRow :: "FilterState \<Rightarrow> DerivedRow \<Rightarrow> bool" where
  "keepRow fs r =
     (if \<not> matchesMulti (colleges fs) (College r) then False
      else if \<not> matchesMulti (levels fs) (Level r) then False
      else if \<not> matchesMulti (copcStatuses fs) (COPC_Status r) then False
      else if \<not> matchesMulti (accreditations fs) (AccreditationNormalized r) then False
      else if \<not> matchesMulti (deans fs) (Dean r) then False
      else if hideBlankMajor fs \<and> trim (Major r) = [] then False
      else if \<not> includesSearch r (search fs) then False
      else True)"

definition filteredRows :: "FilterState \<Rightarrow> DerivedRow list \<Rightarrow> DerivedRow list" where
  "filteredRows fs rows = filter (keepRow fs) rows"

text \<open>
  One filter dimension made stricter: a selection that was empty (no constraint) may become
  anything, a selection that was not may only shrink, and not to the empty selection.
\<close>

definition narrows :: "string list \<Rightarrow> string list \<Rightarrow> bool" where
  "narrows old new = (old = [] \<or> (new \<noteq> [] \<and> set new \<subseteq> set old))"

text \<open>
  A filter state made stricter: every selection narrows, \<open>hideBlankMajor\<close> stays set once
  set, and the text the search requires is still found inside the new required text.
\<close>

definition addsConstraint :: "FilterState \<Rightarrow> FilterState \<Rightarrow> bool" where
  "addsConstraint f g =
     (narrows (colleges f) (colleges g) \<and> narrows (levels f) (levels g) \<and>
      narrows (copcStatuses f) (copcStatuses g) \<and>
      narrows (accreditations f) (accreditations g) \<and> narrows (deans f) (deans g) \<and>
      (hideBlankMajor g \<or> \<not> hideBlankMajor f) \<and>
      sublist (toLowerCase (trim (search f))) (toLowerCase (trim (search g))))"

text \<open>A record with every field empty, the base of the concrete instances below.\<close>

definition emptyRow :: DerivedRow where
  "emptyRow =
     \<lparr>Campus = [], College = [], Program = [], Major = [], Level = [], COPC_Status = [],
      COPC_No = [], Contents_Notation = [], Accreditation = [], CMO_PSG = [],
      BOR_Resolution = [], Dean = [], AccreditationNormalized = ''Unknown''\<rparr>"

section \<open>Aggregation\<close>

text \<open>
  The KPI object \<open>{ total, issued, underApp, phaseOut, colleges }\<close>; its last field is
  \<open>kpi_colleges\<close> here, the name \<open>colleges\<close> being the filter state's.
\<close>

record Kpis =
  total :: nat
  issued :: nat
  underApp :: nat
  phaseOut :: nat
  kpi_colleges :: nat

definition kpis :: "DerivedRow list \<Rightarrow> Kpis" where
  "kpis rows =
     \<lparr>total = length rows,
      issued = length (filter (\<lambda>r. toLowerCase (COPC_Status r) = ''issued'') rows),
      underApp =
        length (filter (\<lambda>r. toLowerCase (COPC_Status r) = ''under application'') rows),
      phaseOut =
        length (filter (\<lambda>r. str_includes (toLowerCase (COPC_Status r)) ''phase-out'') rows),
      kpi_colleges = length (new_Set (filter (\<lambda>c. c \<noteq> []) (map College rows)))\<rparr>"

section \<open>CSV export\<close>












section \<open>Concrete instances\<close>

text \<open>The state of \<open>App\<close> before any upload, as its \<open>useState\<close> calls initialise it.\<close>

definition initialState :: AppState where
  "initialState = \<lparr>loaded = None, filters = DEFAULT_FILTERS, error = None\<rparr>"

text \<open>A complete row object with the twelve expected keys and the given Campus cell.\<close>

definition exampleSheetRow :: "string \<Rightarrow> sheet_row" where
  "exampleSheetRow campus =
     [(''Campus'', Str campus), (''College'', Str ''CAS''), (''Program'', Str ''BS Biology''),
      (''Major'', Str []), (''Level'', Str ''Undergraduate''), (''COPC Status'', Str ''Issued''),
      (''COPC No.'', Num ''12''), (''Contents Notation'', Str []), (''Accreditation'', Str ''Level II''),
      (''CMO / PSG'', Str []), (''BOR Resolution'', Str []), (''Dean'', Str ''Dr. Cruz'')]"

text \<open>A sheet of one data row whose header row lacks the Dean column.\<close>

definition sheetWithoutDean :: "sheet_row list" where
  "sheetWithoutDean = [filter (\<lambda>(key, v). key \<noteq> ''Dean'') (exampleSheetRow ''Bambang'')]"

section \<open>Facts about the string operations\<close>

lemma str_includes_sublist: "str_includes s q = sublist q s"
  by (induction s) (simp_all add: sublist_Cons_right)

lemma isWhiteSpace_toUpperChar: "isWhiteSpace (toUpperChar c) = isWhiteSpace c"
  by (auto simp: toUpperChar_def caseTable_def isWhiteSpace_def split: option.splits if_splits)

lemma isWhiteSpace_toLowerChar: "isWhiteSpace (toLowerChar c) = isWhiteSpace c"
  by (auto simp: toLowerChar_def caseTable_def isWhiteSpace_def split: option.splits if_splits)

lemma trim_toUpperCase: "trim (toUpperCase s) = toUpperCase (trim s)"
proof -
  have ws: "isWhiteSpace \<circ> toUpperChar = isWhiteSpace"
    by (rule ext) (simp add: isWhiteSpace_toUpperChar)
  show ?thesis
    by (simp add: trim_def trimEnd_def trimStart_def toUpperCase_def dropWhile_map rev_map ws)
qed

lemma trim_toLowerCase: "trim (toLowerCase s) = toLowerCase (trim s)"
proof -
  have ws: "isWhiteSpace \<circ> toLowerChar = isWhiteSpace"
    by (rule ext) (simp add: isWhiteSpace_toLowerChar)
  show ?thesis
    by (simp add: trim_def trimEnd_def trimStart_def toLowerCase_def dropWhile_map rev_map ws)
qed

lemma dropWhile_keeps_infix:
  assumes "q \<noteq> []" and "\<not> P (hd q)"
  shows "\<exists>ps'. dropWhile P (ps @ q @ ss) = ps' @ q @ ss"
proof (induction ps)
  case Nil
  from assms have "dropWhile P (q @ ss) = q @ ss"
    by (cases q) simp_all
  then show ?case by (intro exI [of _ "[]"]) simp
next
  case (Cons p ps)
  show ?case
  proof (cases "P p")
    case True
    with Cons show ?thesis by simp
  next
    case False
    then show ?thesis by (intro exI [of _ "p # ps"]) simp
  qed
qed

lemma sublist_trimStart:
  assumes "sublist q s" and "q \<noteq> []" and "\<not> isWhiteSpace (hd q)"
  shows "sublist q (trimStart s)"
proof -
  from assms(1) obtain ps ss where s: "s = ps @ q @ ss"
    by (auto simp: sublist_def)
  from dropWhile_keeps_infix [of q isWhiteSpace ps ss] assms(2,3) obtain ps'
    where "dropWhile isWhiteSpace (ps @ q @ ss) = ps' @ q @ ss" by blast
  with s show ?thesis by (simp add: trimStart_def)
qed

lemma sublist_trimEnd:
  assumes "sublist q s" and "q \<noteq> []" and "\<not> isWhiteSpace (last q)"
  shows "sublist q (trimEnd s)"
proof -
  from assms(1) obtain ps ss where s: "s = ps @ q @ ss"
    by (auto simp: sublist_def)
  have "rev q \<noteq> []" and "\<not> isWhiteSpace (hd (rev q))"
    using assms(2,3) by (simp_all add: hd_rev)
  with dropWhile_keeps_infix [of "rev q" isWhiteSpace "rev ss" "rev ps"] obtain ss'
    where "dropWhile isWhiteSpace (rev ss @ rev q @ rev ps) = ss' @ rev q @ rev ps" by blast
  with s have "trimEnd s = ps @ q @ rev ss'"
    by (simp add: trimEnd_def)
  then show ?thesis by simp
qed

lemma sublist_trim:
  assumes "sublist q s" and "q \<noteq> []"
    and "\<not> isWhiteSpace (hd q)" and "\<not> isWhiteSpace (last q)"
  shows "sublist q (trim s)"
  unfolding trim_def using assms by (intro sublist_trimEnd sublist_trimStart)

lemma trim_sublist_self: "sublist (trim s) s"
proof -
  have "suffix (trimStart s) s"
    by (simp add: trimStart_def suffix_dropWhile)
  moreover have "prefix (trimEnd (trimStart s)) (trimStart s)"
  proof -
    have "suffix (dropWhile isWhiteSpace (rev (trimStart s))) (rev (trimStart s))"
      by (rule suffix_dropWhile)
    then show ?thesis
      by (simp add: trimEnd_def suffix_to_prefix)
  qed
  ultimately show ?thesis
    unfolding trim_def by (meson prefix_imp_sublist suffix_imp_sublist sublist_order.order_trans)
qed

lemma trimEnd_last: "trimEnd s \<noteq> [] \<Longrightarrow> \<not> isWhiteSpace (last (trimEnd s))"
  by (simp add: trimEnd_def last_rev hd_dropWhile)

lemma trimEnd_hd: "trimEnd s \<noteq> [] \<Longrightarrow> hd (trimEnd s) = hd s"
proof -
  assume ne: "trimEnd s \<noteq> []"
  have "suffix (dropWhile isWhiteSpace (rev s)) (rev s)"
    by (rule suffix_dropWhile)
  then have "prefix (trimEnd s) s"
    by (simp add: trimEnd_def suffix_to_prefix)
  then obtain zs where "s = trimEnd s @ zs"
    by (auto simp: prefix_def)
  then have "hd s = hd (trimEnd s @ zs)" by simp
  with ne show ?thesis by simp
qed

lemma trim_ends:
  assumes "trim s \<noteq> []"
  shows "\<not> isWhiteSpace (hd (trim s))" and "\<not> isWhiteSpace (last (trim s))"
proof -
  from assms have t: "trimEnd (trimStart s) \<noteq> []"
    by (simp add: trim_def)
  then have "trimStart s \<noteq> []"
    by (auto simp: trimEnd_def)
  then have "\<not> isWhiteSpace (hd (trimStart s))"
    by (simp add: trimStart_def hd_dropWhile)
  with trimEnd_hd [OF t] show "\<not> isWhiteSpace (hd (trim s))"
    by (simp add: trim_def)
  from trimEnd_last [OF t] show "\<not> isWhiteSpace (last (trim s))"
    by (simp add: trim_def)
qed

lemma sublist_query:
  assumes "sublist q q'"
  shows "sublist (toLowerCase (trim q)) (toLowerCase (trim q'))"
proof (cases "trim q = []")
  case True
  then show ?thesis by (simp add: toLowerCase_def)
next
  case False
  from trim_sublist_self assms have "sublist (trim q) q'"
    by (rule sublist_order.order_trans)
  then have "sublist (trim q) (trim q')"
    using False trim_ends [OF False] by (rule sublist_trim)
  then show ?thesis
    unfolding toLowerCase_def by (rule map_mono_sublist)
qed

section \<open>Accreditation taxonomy\<close>

text \<open>
  C1. \<open>normalizeAccreditation\<close> follows the specification's rule: \<open>Unknown\<close> for text
  that is empty after trimming, otherwise the label of the first keyword of the priority
  table found in the upper-cased trimmed text, otherwise the trimmed text itself.
  \<open>Level I Candidate\<close> is \<open>Level I\<close>, and any text that contains \<open>LEVEL IV\<close> in any
  letter case resolves to \<open>Level IV\<close>.
\<close>

theorem normalizeAccreditation_priority:
  "normalizeAccreditation txt = normalizeAccreditation_spec txt
   \<and> normalizeAccreditation ''Level I Candidate'' = ''Level I''
   \<and> (sublist ''LEVEL IV'' (toUpperCase txt) \<longrightarrow> normalizeAccreditation txt = ''Level IV'')"
proof (intro conjI impI)
  show "normalizeAccreditation txt = normalizeAccreditation_spec txt"
    by (simp add: normalizeAccreditation_def normalizeAccreditation_spec_def Let_def
        accreditationPriority_def str_includes_sublist)
  show "normalizeAccreditation ''Level I Candidate'' = ''Level I''"
    by (simp add: normalizeAccreditation_def Let_def trim_def trimEnd_def trimStart_def
        isWhiteSpace_def toUpperCase_def toUpperChar_def caseTable_def)
next
  assume "sublist ''LEVEL IV'' (toUpperCase txt)"
  then have "sublist ''LEVEL IV'' (trim (toUpperCase txt))"
    by (rule sublist_trim) (simp_all add: isWhiteSpace_def)
  then have found: "sublist ''LEVEL IV'' (toUpperCase (trim txt))"
    by (simp add: trim_toUpperCase)
  then have "trim txt \<noteq> []"
    by (auto simp: toUpperCase_def)
  with found show "normalizeAccreditation txt = ''Level IV''"
    by (simp add: normalizeAccreditation_def Let_def str_includes_sublist)
qed

theorem normalizeAccreditation_priority_witness:
  "sublist ''LEVEL IV'' (toUpperCase ''  Level III, formerly level iv '')
   \<and> normalizeAccreditation ''  Level III, formerly level iv '' = ''Level IV''"
proof -
  have found: "sublist ''LEVEL IV'' (toUpperCase ''  Level III, formerly level iv '')"
    by (simp add: toUpperCase_def toUpperChar_def caseTable_def sublist_Cons_right)
  with normalizeAccreditation_priority [of "''  Level III, formerly level iv ''"]
  show ?thesis by blast
qed

section \<open>Facts about sets and sorting\<close>


lemma set_add_set: "set (set_add acc x) = insert x (set acc)"
  by (auto simp: set_add_def)

lemma foldl_set_add_set: "set (foldl set_add acc xs) = set acc \<union> set xs"
  by (induction xs arbitrary: acc) (auto simp: set_add_set)

lemma foldl_set_add_distinct: "distinct acc \<Longrightarrow> distinct (foldl set_add acc xs)"
  by (induction xs arbitrary: acc) (auto simp: set_add_def)

lemma set_new_Set: "set (new_Set xs) = set xs"
  by (simp add: new_Set_def foldl_set_add_set)

lemma distinct_new_Set: "distinct (new_Set xs)"
  by (simp add: new_Set_def foldl_set_add_distinct)

lemma length_new_Set: "length (new_Set xs) = card (set xs)"
  using distinct_card [OF distinct_new_Set, of xs] by (simp add: set_new_Set)

lemma set_insert_by: "set (insert_by cmp x ys) = insert x (set ys)"
  by (induction ys) auto

lemma distinct_insert_by: "distinct (insert_by cmp x ys) = (x \<notin> set ys \<and> distinct ys)"
  by (induction ys) (auto simp: set_insert_by)

lemma set_sort_by: "set (sort_by cmp xs) = set xs"
  by (induction xs) (simp_all add: sort_by_def set_insert_by)

lemma distinct_sort_by: "distinct (sort_by cmp xs) = distinct xs"
  by (induction xs) (simp_all add: sort_by_def distinct_insert_by set_sort_by [unfolded sort_by_def])

lemma sorted_insert_by:
  assumes total: "\<And>a b. cmp a b \<le> 0 \<or> cmp b a \<le> 0"
    and trans: "\<And>a b c. cmp a b \<le> 0 \<Longrightarrow> cmp b c \<le> 0 \<Longrightarrow> cmp a c \<le> 0"
  shows "sorted_wrt (\<lambda>a b. cmp a b \<le> 0) ys \<Longrightarrow> sorted_wrt (\<lambda>a b. cmp a b \<le> 0) (insert_by cmp x ys)"
proof (induction ys)
  case Nil
  then show ?case by simp
next
  case (Cons y ys)
  show ?case
  proof (cases "cmp x y \<le> 0")
    case True
    with Cons.prems trans show ?thesis by auto
  next
    case False
    with total have "cmp y x \<le> 0" by blast
    with False Cons show ?thesis by (auto simp: set_insert_by)
  qed
qed

lemma sorted_sort_by:
  assumes total: "\<And>a b. cmp a b \<le> 0 \<or> cmp b a \<le> 0"
    and trans: "\<And>a b c. cmp a b \<le> 0 \<Longrightarrow> cmp b c \<le> 0 \<Longrightarrow> cmp a c \<le> 0"
  shows "sorted_wrt (\<lambda>a b. cmp a b \<le> 0) (sort_by cmp xs)"
proof (induction xs)
  case Nil
  then show ?case by (simp add: sort_by_def)
next
  case (Cons x xs)
  from sorted_insert_by [of cmp, OF total trans Cons [unfolded sort_by_def]]
  show ?case by (simp add: sort_by_def)
qed

lemma localeCompare_base_le: "(localeCompare_base a b \<le> 0) = (toLowerCase a \<le> toLowerCase b)"
  by (auto simp: localeCompare_base_def)

lemmas string_eval = trim_def trimEnd_def trimStart_def isWhiteSpace_def toLowerCase_def
  toLowerChar_def toUpperCase_def toUpperChar_def caseTable_def

section \<open>Distinct values\<close>

text \<open>
  The specification's example of \<open>uniqSorted\<close>, run: \<open>b\<close> and \<open>B\<close> are different
  members of the \<open>Set\<close>, so both survive, and the stable sort leaves them in their order
  of first appearance.
\<close>

theorem uniqSorted_exact_dedup_counterexample:
  "uniqSorted localeCompare_base [''b'', ''a'', '' a '', '''', ''B''] = [''a'', ''b'', ''B'']
   \<and> uniqSorted localeCompare_base [''b'', ''a'', '' a '', '''', ''B''] \<noteq> [''a'', ''b'']"
  by (simp add: uniqSorted_def sort_by_def new_Set_def set_add_def localeCompare_base_def
      string_eval)

text \<open>
  C2, amended. For a comparator that is a total preorder, \<open>uniqSorted\<close> returns the
  trimmed, non-empty values, each exactly once under exact (case-sensitive) string equality,
  sorted by the comparator. Whatever the comparator, the specification's example keeps
  three values: \<open>b\<close> and \<open>B\<close> are not identified. Under the case-insensitive
  comparator the example yields \<open>a\<close>, \<open>b\<close>, \<open>B\<close>.
\<close>

theorem uniqSorted_exact_dedup:
  assumes total: "\<And>a b. cmp a b \<le> 0 \<or> cmp b a \<le> 0"
    and trans: "\<And>a b c. cmp a b \<le> 0 \<Longrightarrow> cmp b c \<le> 0 \<Longrightarrow> cmp a c \<le> 0"
  shows "set (uniqSorted cmp vs) = {t \<in> trim ` set vs. t \<noteq> []}
    \<and> distinct (uniqSorted cmp vs)
    \<and> sorted_wrt (\<lambda>a b. cmp a b \<le> 0) (uniqSorted cmp vs)
    \<and> length (uniqSorted cmp [''b'', ''a'', '' a '', '''', ''B'']) = 3
    \<and> uniqSorted localeCompare_base [''b'', ''a'', '' a '', '''', ''B''] = [''a'', ''b'', ''B'']"
proof (intro conjI)
  show "uniqSorted localeCompare_base [''b'', ''a'', '' a '', '''', ''B''] = [''a'', ''b'', ''B'']"
    by (simp add: uniqSorted_def sort_by_def new_Set_def set_add_def localeCompare_base_def
        string_eval)
  show "set (uniqSorted cmp vs) = {t \<in> trim ` set vs. t \<noteq> []}"
    by (auto simp: uniqSorted_def set_sort_by set_new_Set)
  show "distinct (uniqSorted cmp vs)"
    by (simp add: uniqSorted_def distinct_sort_by distinct_new_Set)
  show "sorted_wrt (\<lambda>a b. cmp a b \<le> 0) (uniqSorted cmp vs)"
    unfolding uniqSorted_def by (rule sorted_sort_by [OF total trans])
  have "length (uniqSorted cmp [''b'', ''a'', '' a '', '''', ''B'']) =
      card (set (uniqSorted cmp [''b'', ''a'', '' a '', '''', ''B'']))"
    by (simp add: distinct_card uniqSorted_def distinct_sort_by distinct_new_Set)
  also have "set (uniqSorted cmp [''b'', ''a'', '' a '', '''', ''B'']) = {''b'', ''a'', ''B''}"
    by (auto simp: uniqSorted_def set_sort_by set_new_Set string_eval)
  finally show "length (uniqSorted cmp [''b'', ''a'', '' a '', '''', ''B'']) = 3"
    by simp
qed

theorem uniqSorted_exact_dedup_witness:
  "set (uniqSorted localeCompare_base ['' x'', ''X'', ''x '', ''  '']) = {''x'', ''X''}
   \<and> distinct (uniqSorted localeCompare_base ['' x'', ''X'', ''x '', ''  ''])
   \<and> sorted_wrt (\<lambda>a b. localeCompare_base a b \<le> 0)
       (uniqSorted localeCompare_base ['' x'', ''X'', ''x '', ''  ''])"
proof -
  have total: "\<And>a b. localeCompare_base a b \<le> 0 \<or> localeCompare_base b a \<le> 0"
    by (auto simp: localeCompare_base_le)
  have trans: "\<And>a b c. localeCompare_base a b \<le> 0 \<Longrightarrow> localeCompare_base b c \<le> 0
      \<Longrightarrow> localeCompare_base a c \<le> 0"
    by (auto simp: localeCompare_base_le)
  have "{t \<in> trim ` set ['' x'', ''X'', ''x '', ''  '']. t \<noteq> []} = {''x'', ''X''}"
    by (auto simp: string_eval)
  with uniqSorted_exact_dedup [of localeCompare_base "['' x'', ''X'', ''x '', ''  '']", OF total trans]
  show ?thesis by simp
qed

section \<open>Free-text search\<close>

lemma join_Cons: "join sep (x # xs) = (if xs = [] then x else x @ sep @ join sep xs)"
  by (cases xs) simp_all

lemma pipeJoined_empty_iff: "pipeJoined fs = [] \<longleftrightarrow> filter (\<lambda>s. s \<noteq> []) fs = []"
  by (induction fs) auto

lemma join_filter_pipeJoined: "join '' | '' (filter (\<lambda>s. s \<noteq> []) fs) = pipeJoined fs"
  by (induction fs) (simp_all add: join_Cons pipeJoined_empty_iff)

text \<open>
  C5. The search passes when the trimmed query is empty, and otherwise exactly when the
  trimmed, lower-cased query is a substring of the lower-cased pipe-joined text of Program,
  Major, COPC No., CMO / PSG, BOR Resolution, Contents Notation, College, Level, COPC Status,
  raw Accreditation and Dean, empty fields skipped. Campus is not searched.
\<close>

theorem includesSearch_substring:
  "includesSearch row q =
     (trim q = [] \<or>
      sublist (toLowerCase (trim q))
        (toLowerCase (pipeJoined
           [Program row, Major row, COPC_No row, CMO_PSG row, BOR_Resolution row,
            Contents_Notation row, College row, Level row, COPC_Status row,
            Accreditation row, Dean row])))
   \<and> includesSearch (row\<lparr>Campus := c\<rparr>) q = includesSearch row q"
proof (rule conjI)
  have empty: "toLowerCase (trim q) = [] \<longleftrightarrow> trim q = []"
    by (simp add: toLowerCase_def)
  show "includesSearch row q =
     (trim q = [] \<or>
      sublist (toLowerCase (trim q))
        (toLowerCase (pipeJoined
           [Program row, Major row, COPC_No row, CMO_PSG row, BOR_Resolution row,
            Contents_Notation row, College row, Level row, COPC_Status row,
            Accreditation row, Dean row])))"
    unfolding includesSearch_def Let_def str_includes_sublist join_filter_pipeJoined
      searchedFields_def empty
    by (rule if_bool_eq_disj [THEN trans]) blast
  have "searchedFields (row\<lparr>Campus := c\<rparr>) = searchedFields row"
    by (simp add: searchedFields_def)
  then show "includesSearch (row\<lparr>Campus := c\<rparr>) q = includesSearch row q"
    by (simp only: includesSearch_def)
qed

theorem includesSearch_substring_witness:
  "includesSearch (emptyRow\<lparr>Program := ''BS Biology'', Dean := ''Dr. Cruz''\<rparr>) '' OLOGY | dr. ''
   \<and> \<not> includesSearch (emptyRow\<lparr>Campus := ''Bambang'', Program := ''BS Biology''\<rparr>) ''bambang''"
proof -
  have q1: "toLowerCase (trim '' OLOGY | dr. '') = ''ology | dr.''"
    by (simp add: string_eval)
  have q2: "toLowerCase (trim ''bambang'') = ''bambang''"
    by (simp add: string_eval)
  have h1: "toLowerCase (pipeJoined (searchedFields
      (emptyRow\<lparr>Program := ''BS Biology'', Dean := ''Dr. Cruz''\<rparr>))) = ''bs biology | dr. cruz''"
    by (simp add: emptyRow_def searchedFields_def string_eval)
  have h2: "toLowerCase (pipeJoined (searchedFields
      (emptyRow\<lparr>Campus := ''Bambang'', Program := ''BS Biology''\<rparr>))) = ''bs biology''"
    by (simp add: emptyRow_def searchedFields_def string_eval)
  have s1: "sublist ''ology | dr.'' ''bs biology | dr. cruz''"
    by (simp add: sublist_Cons_right)
  have s2: "\<not> sublist ''bambang'' ''bs biology''"
    by (simp add: sublist_Cons_right)
  from includesSearch_substring
    [of "emptyRow\<lparr>Program := ''BS Biology'', Dean := ''Dr. Cruz''\<rparr>" "'' OLOGY | dr. ''"]
  have 1: "includesSearch (emptyRow\<lparr>Program := ''BS Biology'', Dean := ''Dr. Cruz''\<rparr>)
      '' OLOGY | dr. ''"
    unfolding searchedFields_def [symmetric] q1 h1 using s1 by blast
  from includesSearch_substring
    [of "emptyRow\<lparr>Campus := ''Bambang'', Program := ''BS Biology''\<rparr>" "''bambang''"]
  have 2: "\<not> includesSearch (emptyRow\<lparr>Campus := ''Bambang'', Program := ''BS Biology''\<rparr>)
      ''bambang''"
    unfolding searchedFields_def [symmetric] q2 h2 using s2 q2 by (auto simp: toLowerCase_def)
  from 1 2 show ?thesis by (rule conjI)
qed

section \<open>Filter engine\<close>

lemma matchesMulti_Nil: "matchesMulti [] v"
  by (simp add: matchesMulti_def)

lemma includesSearch_blank: "trim q = [] \<Longrightarrow> includesSearch row q"
  by (simp add: includesSearch_def toLowerCase_def)

text \<open>
  With the five selections empty and a blank search, a set \<open>hideBlankMajor\<close> still removes
  the record whose Major is blank.
\<close>

theorem filteredRows_empty_state_counterexample:
  "filteredRows \<lparr>colleges = [], levels = [], copcStatuses = [], accreditations = [], deans = [],
      search = '' '', hideBlankMajor = True\<rparr> [emptyRow\<lparr>Program := ''BS Biology''\<rparr>] = []
   \<and> filteredRows \<lparr>colleges = [], levels = [], copcStatuses = [], accreditations = [], deans = [],
      search = '' '', hideBlankMajor = True\<rparr> [emptyRow\<lparr>Program := ''BS Biology''\<rparr>]
     \<noteq> [emptyRow\<lparr>Program := ''BS Biology''\<rparr>]"
  by (simp add: filteredRows_def keepRow_def matchesMulti_def emptyRow_def string_eval)

text \<open>
  C3, amended. With the five selections empty and a blank search string, the filter returns
  the input list unchanged, in the same order, when \<open>hideBlankMajor\<close> is off; when it is
  on, exactly the records with a non-blank Major remain.
\<close>

theorem filteredRows_empty_state:
  assumes "colleges fs = []" and "levels fs = []" and "copcStatuses fs = []"
    and "accreditations fs = []" and "deans fs = []" and "trim (search fs) = []"
  shows "filteredRows fs rows =
    (if hideBlankMajor fs then filter (\<lambda>r. trim (Major r) \<noteq> []) rows else rows)"
proof -
  have "keepRow fs r = (\<not> (hideBlankMajor fs \<and> trim (Major r) = []))" for r
    using assms by (simp add: keepRow_def matchesMulti_Nil includesSearch_blank)
  then have "keepRow fs = (\<lambda>r. \<not> (hideBlankMajor fs \<and> trim (Major r) = []))"
    by (intro ext)
  then show ?thesis
    by (cases "hideBlankMajor fs") (simp_all add: filteredRows_def)
qed

theorem filteredRows_empty_state_witness:
  "filteredRows (DEFAULT_FILTERS\<lparr>search := ''  ''\<rparr>)
     [emptyRow\<lparr>Program := ''BS Biology''\<rparr>, emptyRow\<lparr>Major := ''Botany''\<rparr>]
   = [emptyRow\<lparr>Program := ''BS Biology''\<rparr>, emptyRow\<lparr>Major := ''Botany''\<rparr>]
   \<and> filteredRows (DEFAULT_FILTERS\<lparr>hideBlankMajor := True\<rparr>)
     [emptyRow\<lparr>Program := ''BS Biology''\<rparr>, emptyRow\<lparr>Major := ''Botany''\<rparr>]
   = [emptyRow\<lparr>Major := ''Botany''\<rparr>]"
proof -
  have blank: "trim ''  '' = []" "trim [] = []" "trim ''Botany'' \<noteq> []"
    by (simp_all add: string_eval)
  have 1: "filteredRows (DEFAULT_FILTERS\<lparr>search := ''  ''\<rparr>)
     [emptyRow\<lparr>Program := ''BS Biology''\<rparr>, emptyRow\<lparr>Major := ''Botany''\<rparr>]
   = [emptyRow\<lparr>Program := ''BS Biology''\<rparr>, emptyRow\<lparr>Major := ''Botany''\<rparr>]"
    using filteredRows_empty_state [of "DEFAULT_FILTERS\<lparr>search := ''  ''\<rparr>"]
    by (simp add: DEFAULT_FILTERS_def blank)
  have 2: "filteredRows (DEFAULT_FILTERS\<lparr>hideBlankMajor := True\<rparr>)
     [emptyRow\<lparr>Program := ''BS Biology''\<rparr>, emptyRow\<lparr>Major := ''Botany''\<rparr>]
   = [emptyRow\<lparr>Major := ''Botany''\<rparr>]"
    using filteredRows_empty_state [of "DEFAULT_FILTERS\<lparr>hideBlankMajor := True\<rparr>"]
    by (simp add: DEFAULT_FILTERS_def blank emptyRow_def)
  from 1 2 show ?thesis by (rule conjI)
qed

lemma matchesMulti_narrows:
  "narrows old new \<Longrightarrow> matchesMulti new v \<Longrightarrow> matchesMulti old v"
  by (auto simp: narrows_def matchesMulti_def split: if_splits)

lemma includesSearch_longer:
  assumes "sublist (toLowerCase (trim q)) (toLowerCase (trim q'))"
    and "includesSearch row q'"
  shows "includesSearch row q"
proof (cases "toLowerCase (trim q) = []")
  case True
  then show ?thesis by (simp add: includesSearch_def)
next
  case False
  with assms(1) have "toLowerCase (trim q') \<noteq> []" by auto
  with assms(2) have "sublist (toLowerCase (trim q'))
      (toLowerCase (join '' | '' (filter (\<lambda>s. s \<noteq> []) (searchedFields row))))"
    by (simp add: includesSearch_def Let_def str_includes_sublist)
  with assms(1) have "sublist (toLowerCase (trim q))
      (toLowerCase (join '' | '' (filter (\<lambda>s. s \<noteq> []) (searchedFields row))))"
    by (rule sublist_order.order_trans)
  with False show ?thesis
    by (simp add: includesSearch_def Let_def str_includes_sublist)
qed

lemma keepRow_addsConstraint:
  assumes "addsConstraint f g" and "keepRow g r"
  shows "keepRow f r"
proof -
  from assms(2) have g: "matchesMulti (colleges g) (College r)" "matchesMulti (levels g) (Level r)"
    "matchesMulti (copcStatuses g) (COPC_Status r)"
    "matchesMulti (accreditations g) (AccreditationNormalized r)"
    "matchesMulti (deans g) (Dean r)" "\<not> (hideBlankMajor g \<and> trim (Major r) = [])"
    "includesSearch r (search g)"
    by (simp_all add: keepRow_def split: if_splits)
  from assms(1) have n: "narrows (colleges f) (colleges g)" "narrows (levels f) (levels g)"
    "narrows (copcStatuses f) (copcStatuses g)" "narrows (accreditations f) (accreditations g)"
    "narrows (deans f) (deans g)" "hideBlankMajor g \<or> \<not> hideBlankMajor f"
    "sublist (toLowerCase (trim (search f))) (toLowerCase (trim (search g)))"
    by (simp_all add: addsConstraint_def)
  have "matchesMulti (colleges f) (College r)" "matchesMulti (levels f) (Level r)"
    "matchesMulti (copcStatuses f) (COPC_Status r)"
    "matchesMulti (accreditations f) (AccreditationNormalized r)"
    "matchesMulti (deans f) (Dean r)"
    using g n by (blast intro: matchesMulti_narrows)+
  moreover have "\<not> (hideBlankMajor f \<and> trim (Major r) = [])"
    using g(6) n(6) by blast
  moreover have "includesSearch r (search f)"
    using n(7) g(7) by (rule includesSearch_longer)
  ultimately show ?thesis
    by (simp add: keepRow_def)
qed

lemma narrows_refl: "narrows sel sel"
  by (auto simp: narrows_def)

text \<open>
  The ways of making a filter state stricter: setting \<open>hideBlankMajor\<close>, extending the
  search string, and narrowing one of the five selections.
\<close>

lemma addsConstraint_kinds:
  "addsConstraint f (f\<lparr>hideBlankMajor := True\<rparr>)"
  "sublist (search f) q \<Longrightarrow> addsConstraint f (f\<lparr>search := q\<rparr>)"
  "narrows (colleges f) sel \<Longrightarrow> addsConstraint f (f\<lparr>colleges := sel\<rparr>)"
  "narrows (levels f) sel \<Longrightarrow> addsConstraint f (f\<lparr>levels := sel\<rparr>)"
  "narrows (copcStatuses f) sel \<Longrightarrow> addsConstraint f (f\<lparr>copcStatuses := sel\<rparr>)"
  "narrows (accreditations f) sel \<Longrightarrow> addsConstraint f (f\<lparr>accreditations := sel\<rparr>)"
  "narrows (deans f) sel \<Longrightarrow> addsConstraint f (f\<lparr>deans := sel\<rparr>)"
  by (simp_all add: addsConstraint_def narrows_refl sublist_query)

text \<open>
  Shrinking the non-empty college selection \<open>[CAS]\<close> to the empty selection lifts the
  constraint: the result grows from one record to two.
\<close>

theorem filteredRows_monotone_counterexample:
  "filteredRows (DEFAULT_FILTERS\<lparr>colleges := [''CAS'']\<rparr>)
       [emptyRow\<lparr>College := ''CAS''\<rparr>, emptyRow\<lparr>College := ''CTE''\<rparr>]
     = [emptyRow\<lparr>College := ''CAS''\<rparr>]
   \<and> filteredRows (DEFAULT_FILTERS\<lparr>colleges := []\<rparr>)
       [emptyRow\<lparr>College := ''CAS''\<rparr>, emptyRow\<lparr>College := ''CTE''\<rparr>]
     = [emptyRow\<lparr>College := ''CAS''\<rparr>, emptyRow\<lparr>College := ''CTE''\<rparr>]
   \<and> \<not> set (filteredRows (DEFAULT_FILTERS\<lparr>colleges := []\<rparr>)
       [emptyRow\<lparr>College := ''CAS''\<rparr>, emptyRow\<lparr>College := ''CTE''\<rparr>])
     \<subseteq> set (filteredRows (DEFAULT_FILTERS\<lparr>colleges := [''CAS'']\<rparr>)
       [emptyRow\<lparr>College := ''CAS''\<rparr>, emptyRow\<lparr>College := ''CTE''\<rparr>])"
  by (simp add: filteredRows_def keepRow_def matchesMulti_def DEFAULT_FILTERS_def emptyRow_def
      includesSearch_def string_eval)

text \<open>
  C4, amended. When a filter state is made stricter (a selection shrinks to a non-empty
  subset, an empty selection becomes non-empty, \<open>hideBlankMajor\<close> is set, or the required
  search text is extended), the new result is the old result filtered once more: a
  subsequence of it, a subset of it, and no longer than it.
\<close>

theorem filteredRows_monotone:
  assumes "addsConstraint f g"
  shows "filteredRows g rows = filter (keepRow g) (filteredRows f rows)
    \<and> set (filteredRows g rows) \<subseteq> set (filteredRows f rows)
    \<and> subseq (filteredRows g rows) (filteredRows f rows)
    \<and> length (filteredRows g rows) \<le> length (filteredRows f rows)"
proof -
  have "(keepRow f r \<and> keepRow g r) = keepRow g r" for r
    using keepRow_addsConstraint [OF assms] by blast
  then have eq: "filteredRows g rows = filter (keepRow g) (filteredRows f rows)"
    by (simp add: filteredRows_def)
  have "subseq (filter (keepRow g) (filteredRows f rows)) (filteredRows f rows)"
    by (rule subseq_filter_left)
  with eq have sub: "subseq (filteredRows g rows) (filteredRows f rows)"
    by simp
  have "set (filteredRows g rows) \<subseteq> set (filteredRows f rows)"
    by (subst eq) auto
  moreover from sub have "length (filteredRows g rows) \<le> length (filteredRows f rows)"
    by (rule list_emb_length)
  ultimately show ?thesis using eq sub by blast
qed

theorem filteredRows_monotone_witness:
  "addsConstraint (DEFAULT_FILTERS\<lparr>colleges := [''CAS'', ''CTE''], search := ''bio''\<rparr>)
     (DEFAULT_FILTERS\<lparr>colleges := [''CAS''], deans := [''Dr. Cruz''], search := '' Biol'',
        hideBlankMajor := True\<rparr>)
   \<and> length (filteredRows
        (DEFAULT_FILTERS\<lparr>colleges := [''CAS''], deans := [''Dr. Cruz''], search := '' Biol'',
           hideBlankMajor := True\<rparr>)
        [emptyRow\<lparr>College := ''CAS'', Program := ''BS Biology''\<rparr>,
         emptyRow\<lparr>College := ''CTE'', Program := ''BSEd Biology''\<rparr>])
     \<le> length (filteredRows (DEFAULT_FILTERS\<lparr>colleges := [''CAS'', ''CTE''], search := ''bio''\<rparr>)
        [emptyRow\<lparr>College := ''CAS'', Program := ''BS Biology''\<rparr>,
         emptyRow\<lparr>College := ''CTE'', Program := ''BSEd Biology''\<rparr>])"
proof -
  have q: "toLowerCase (trim ''bio'') = ''bio''" "toLowerCase (trim '' Biol'') = ''biol''"
    by (simp_all add: string_eval)
  have a: "addsConstraint (DEFAULT_FILTERS\<lparr>colleges := [''CAS'', ''CTE''], search := ''bio''\<rparr>)
     (DEFAULT_FILTERS\<lparr>colleges := [''CAS''], deans := [''Dr. Cruz''], search := '' Biol'',
        hideBlankMajor := True\<rparr>)"
    by (simp add: addsConstraint_def narrows_def DEFAULT_FILTERS_def q)
  from a filteredRows_monotone [OF a] show ?thesis by blast
qed

section \<open>KPI summary\<close>

text \<open>
  C6. The KPI summary: \<open>total\<close> is the number of records, \<open>issued\<close> and \<open>underApp\<close>
  count the records whose lower-cased COPC Status is exactly \<open>issued\<close> or
  \<open>under application\<close>, \<open>phaseOut\<close> counts those whose lower-cased status contains
  \<open>phase-out\<close>, and the college count is the number of distinct non-empty College
  values. \<open>Voluntary Phase-Out\<close> and \<open>phase-out (pending)\<close> count as phase-out,
  \<open>Phased\<close> does not.
\<close>

theorem kpis_counts:
  "total (kpis rows) = length rows
   \<and> issued (kpis rows) =
       card {i. i < length rows \<and> toLowerCase (COPC_Status (rows ! i)) = ''issued''}
   \<and> underApp (kpis rows) =
       card {i. i < length rows \<and> toLowerCase (COPC_Status (rows ! i)) = ''under application''}
   \<and> phaseOut (kpis rows) =
       card {i. i < length rows \<and> sublist ''phase-out'' (toLowerCase (COPC_Status (rows ! i)))}
   \<and> kpi_colleges (kpis rows) = card {c \<in> College ` set rows. c \<noteq> []}
   \<and> phaseOut (kpis [r\<lparr>COPC_Status := ''Voluntary Phase-Out''\<rparr>,
        r\<lparr>COPC_Status := ''phase-out (pending)''\<rparr>, r\<lparr>COPC_Status := ''Phased''\<rparr>]) = 2"
proof (intro conjI)
  show "total (kpis rows) = length rows"
    by (simp add: kpis_def)
  show "issued (kpis rows) =
       card {i. i < length rows \<and> toLowerCase (COPC_Status (rows ! i)) = ''issued''}"
    by (simp add: kpis_def length_filter_conv_card)
  show "underApp (kpis rows) =
       card {i. i < length rows \<and> toLowerCase (COPC_Status (rows ! i)) = ''under application''}"
    by (simp add: kpis_def length_filter_conv_card)
  show "phaseOut (kpis rows) =
       card {i. i < length rows \<and> sublist ''phase-out'' (toLowerCase (COPC_Status (rows ! i)))}"
    by (simp add: kpis_def length_filter_conv_card str_includes_sublist)
  have "set (filter (\<lambda>c. c \<noteq> []) (map College rows)) = {c \<in> College ` set rows. c \<noteq> []}"
    by auto
  then show "kpi_colleges (kpis rows) = card {c \<in> College ` set rows. c \<noteq> []}"
    by (simp add: kpis_def length_new_Set)
  have "toLowerCase ''Voluntary Phase-Out'' = ''voluntary phase-out''"
    "toLowerCase ''phase-out (pending)'' = ''phase-out (pending)''"
    "toLowerCase ''Phased'' = ''phased''"
    by (simp_all add: string_eval)
  then show "phaseOut (kpis [r\<lparr>COPC_Status := ''Voluntary Phase-Out''\<rparr>,
        r\<lparr>COPC_Status := ''phase-out (pending)''\<rparr>, r\<lparr>COPC_Status := ''Phased''\<rparr>]) = 2"
    by (simp add: kpis_def)
qed

theorem kpis_counts_witness:
  "total (kpis [emptyRow\<lparr>College := ''CAS'', COPC_Status := ''ISSUED''\<rparr>,
       emptyRow\<lparr>College := ''CAS'', COPC_Status := ''Issued (2019)''\<rparr>, emptyRow]) = 3
   \<and> kpi_colleges (kpis [emptyRow\<lparr>College := ''CAS'', COPC_Status := ''ISSUED''\<rparr>,
       emptyRow\<lparr>College := ''CAS'', COPC_Status := ''Issued (2019)''\<rparr>, emptyRow]) = 1
   \<and> phaseOut (kpis [emptyRow\<lparr>COPC_Status := ''Voluntary Phase-Out''\<rparr>,
        emptyRow\<lparr>COPC_Status := ''phase-out (pending)''\<rparr>,
        emptyRow\<lparr>COPC_Status := ''Phased''\<rparr>]) = 2"
proof -
  have "{c \<in> College ` set [emptyRow\<lparr>College := ''CAS'', COPC_Status := ''ISSUED''\<rparr>,
       emptyRow\<lparr>College := ''CAS'', COPC_Status := ''Issued (2019)''\<rparr>, emptyRow]. c \<noteq> []}
     = {''CAS''}"
    by (auto simp: emptyRow_def)
  with kpis_counts [of "[emptyRow\<lparr>College := ''CAS'', COPC_Status := ''ISSUED''\<rparr>,
       emptyRow\<lparr>College := ''CAS'', COPC_Status := ''Issued (2019)''\<rparr>, emptyRow]" emptyRow]
  show ?thesis by simp
qed

section \<open>Campus restriction\<close>

text \<open>
  C7. After a successful parse, the loaded data keeps the parsed rows as \<open>raw\<close>, keeps in
  \<open>bambang\<close> exactly the rows whose Campus equals \<open>Bambang\<close> up to letter case and
  surrounding white space, in their order, and reports as removed the number of parsed rows
  minus the number kept, which is the number of rows of another campus.
\<close>

theorem onFileSelected_campus_restriction:
  assumes "parseXlsxFirstSheet file = Inr parsed"
  shows "\<exists>ld. loaded (onFileSelected (Some file) st) = Some ld
     \<and> raw ld = parsed
     \<and> bambang ld = filter (\<lambda>r. toLowerCase (trim (Campus r)) = toLowerCase ''Bambang'') parsed
     \<and> removedNonBambangCount ld = int (length parsed) - int (length (bambang ld))
     \<and> removedNonBambangCount ld =
         int (length (filter (\<lambda>r. toLowerCase (trim (Campus r)) \<noteq> toLowerCase ''Bambang'') parsed))"
proof -
  have target: "toLowerCase ''Bambang'' = ''bambang''"
    by (simp add: string_eval)
  have "length parsed = length (filter (\<lambda>r. toLowerCase (trim (Campus r)) = ''bambang'') parsed)
      + length (filter (\<lambda>r. toLowerCase (trim (Campus r)) \<noteq> ''bambang'') parsed)"
    by (rule sum_length_filter_compl [symmetric])
  then show ?thesis
    using assms by (simp add: onFileSelected_def Let_def target)
qed

theorem onFileSelected_campus_restriction_witness:
  "map Campus (bambang (the (loaded (onFileSelected
      (Some (Workbook [(''Sheet1'',
         map exampleSheetRow [''BAMBANG'', ''bambang '', ''Solano'', ''Bambang''])]))
      initialState)))) = [''BAMBANG'', ''bambang'', ''Bambang'']
   \<and> removedNonBambangCount (the (loaded (onFileSelected
      (Some (Workbook [(''Sheet1'',
         map exampleSheetRow [''BAMBANG'', ''bambang '', ''Solano'', ''Bambang''])]))
      initialState))) = 1"
proof -
  have v: "validateHeaders (map fst (exampleSheetRow c)) = None" for c
    by (simp add: validateHeaders_def exampleSheetRow_def EXPECTED_HEADERS_def string_eval)
  have c: "Campus (to_ProgramRow (exampleSheetRow c)) = trim c" for c
    by (simp add: to_ProgramRow_def exampleSheetRow_def get_cell_def)
  have p: "parseXlsxFirstSheet (Workbook [(''Sheet1'',
         map exampleSheetRow [''BAMBANG'', ''bambang '', ''Solano'', ''Bambang''])])
     = Inr (map (to_ProgramRow \<circ> exampleSheetRow) [''BAMBANG'', ''bambang '', ''Solano'', ''Bambang''])"
    by (simp add: v)
  have t: "trim ''BAMBANG'' = ''BAMBANG''" "trim ''bambang '' = ''bambang''"
    "trim ''bambang'' = ''bambang''"
    "trim ''Solano'' = ''Solano''" "trim ''Bambang'' = ''Bambang''"
    "toLowerCase ''BAMBANG'' = ''bambang''" "toLowerCase ''bambang'' = ''bambang''"
    "toLowerCase ''Solano'' = ''solano''" "toLowerCase ''Bambang'' = ''bambang''"
    by (simp_all add: string_eval)
  from onFileSelected_campus_restriction [OF p, of initialState]
  show ?thesis by (auto simp: c t)
qed

section \<open>Header validation\<close>

lemma sublist_prepend: "sublist x ys \<Longrightarrow> sublist x (ps @ ys)"
proof -
  assume "sublist x ys"
  then obtain a b where "ys = a @ x @ b"
    by (auto simp: sublist_def)
  then have "ps @ ys = (ps @ a) @ x @ b"
    by simp
  then show ?thesis
    unfolding sublist_def by blast
qed

lemma sublist_join: "x \<in> set xs \<Longrightarrow> sublist x (join sep xs)"
proof (induction sep xs rule: join.induct)
  case (1 sep)
  then show ?case by simp
next
  case (2 sep y)
  then show ?case by simp
next
  case (3 sep y z zs)
  show ?case
  proof (cases "x = y")
    case True
    then show ?thesis by simp
  next
    case False
    with 3 have "sublist x (join sep (z # zs))" by simp
    then have "sublist x ((y @ sep) @ join sep (z # zs))"
      by (rule sublist_prepend)
    then show ?thesis by simp
  qed
qed

lemma validateHeaders_None_iff:
  "validateHeaders hs = None \<longleftrightarrow> set EXPECTED_HEADERS \<subseteq> trim ` set hs"
  by (auto simp: validateHeaders_def Let_def filter_empty_conv)

lemma validateHeaders_Some:
  "\<not> set EXPECTED_HEADERS \<subseteq> trim ` set hs \<Longrightarrow>
   validateHeaders hs =
     Some (''Missing expected columns: '' @
       join '', '' (filter (\<lambda>h. h \<notin> trim ` set hs) EXPECTED_HEADERS))"
  by (auto simp: validateHeaders_def Let_def filter_empty_conv)

lemma validateHeaders_names_missing:
  assumes "h \<in> set EXPECTED_HEADERS" and "h \<notin> trim ` set hs"
  shows "\<exists>msg. validateHeaders hs = Some msg \<and> sublist h msg"
proof -
  from assms have "\<not> set EXPECTED_HEADERS \<subseteq> trim ` set hs" by blast
  then have v: "validateHeaders hs =
     Some (''Missing expected columns: '' @
       join '', '' (filter (\<lambda>h. h \<notin> trim ` set hs) EXPECTED_HEADERS))"
    by (rule validateHeaders_Some)
  from assms have "h \<in> set (filter (\<lambda>h. h \<notin> trim ` set hs) EXPECTED_HEADERS)"
    by simp
  then have "sublist h (join '', '' (filter (\<lambda>h. h \<notin> trim ` set hs) EXPECTED_HEADERS))"
    by (rule sublist_join)
  then have "sublist h (''Missing expected columns: '' @
       join '', '' (filter (\<lambda>h. h \<notin> trim ` set hs) EXPECTED_HEADERS))"
    by (rule sublist_prepend)
  with v show ?thesis by blast
qed

text \<open>
  A first sheet without data rows has no row keys to observe, so every expected column,
  Dean among them, is absent and \<open>validateHeaders\<close> would reject it; yet the parse
  succeeds with the empty list and the upload ends without an error.
\<close>

theorem validateHeaders_missing_columns_counterexample:
  "validateHeaders [] =
     Some (''Missing expected columns: Campus, College, Program, Major, Level, '' @
       ''COPC Status, COPC No., Contents Notation, Accreditation, CMO / PSG, BOR Resolution, Dean'')
   \<and> parseXlsxFirstSheet (Workbook [(''Sheet1'', [])]) = Inr []
   \<and> error (onFileSelected (Some (Workbook [(''Sheet1'', [])])) initialState) = None"
  by (simp add: validateHeaders_def EXPECTED_HEADERS_def onFileSelected_def initialState_def)

text \<open>
  C8, amended. \<open>validateHeaders\<close> succeeds exactly when each of the twelve expected names
  is among the trimmed headers; the order of the headers and extra columns do not matter.
  Otherwise its message lists the absent expected columns, each by name; without a Dean
  column the message contains \<open>Dean\<close>. The headers are the keys of the first data row:
  for a first sheet with at least one data row, the parse fails with that message and the
  upload ends with no data and that error, and the parse succeeds with the normalised rows
  when nothing is missing. A first sheet without data rows is not validated and parses to
  the empty list.
\<close>

theorem validateHeaders_missing_columns:
  "(validateHeaders hs = None \<longleftrightarrow>
      {''Campus'', ''College'', ''Program'', ''Major'', ''Level'', ''COPC Status'', ''COPC No.'',
       ''Contents Notation'', ''Accreditation'', ''CMO / PSG'', ''BOR Resolution'', ''Dean''}
      \<subseteq> trim ` set hs)
   \<and> (validateHeaders hs \<noteq> None \<longrightarrow>
        validateHeaders hs =
          Some (''Missing expected columns: '' @
            join '', '' (filter (\<lambda>h. h \<notin> trim ` set hs) EXPECTED_HEADERS)))
   \<and> (\<forall>h \<in> set EXPECTED_HEADERS. h \<notin> trim ` set hs \<longrightarrow>
        (\<exists>msg. validateHeaders hs = Some msg \<and> sublist h msg))
   \<and> (''Dean'' \<notin> trim ` set hs \<longrightarrow>
        (\<exists>msg. validateHeaders hs = Some msg \<and> sublist ''Dean'' msg))
   \<and> (set hs = set hs' \<longrightarrow> validateHeaders hs' = validateHeaders hs)
   \<and> (validateHeaders hs = None \<longrightarrow> validateHeaders (hs @ extra) = None)
   \<and> (name \<noteq> [] \<longrightarrow>
        parseXlsxFirstSheet (Workbook ((name, r # rs) # others)) =
          (case validateHeaders (map fst r) of
             None \<Rightarrow> Inr (map to_ProgramRow (r # rs))
           | Some msg \<Rightarrow> Inl (Error msg)))
   \<and> (name \<noteq> [] \<and> validateHeaders (map fst r) = Some msg \<longrightarrow>
        loaded (onFileSelected (Some (Workbook ((name, r # rs) # others))) st) = None
        \<and> error (onFileSelected (Some (Workbook ((name, r # rs) # others))) st) = Some msg)
   \<and> (name \<noteq> [] \<longrightarrow> parseXlsxFirstSheet (Workbook ((name, []) # others)) = Inr [])"
proof (intro conjI impI ballI)
  have "set EXPECTED_HEADERS =
      {''Campus'', ''College'', ''Program'', ''Major'', ''Level'', ''COPC Status'', ''COPC No.'',
       ''Contents Notation'', ''Accreditation'', ''CMO / PSG'', ''BOR Resolution'', ''Dean''}"
    by (simp add: EXPECTED_HEADERS_def)
  then show "validateHeaders hs = None \<longleftrightarrow>
      {''Campus'', ''College'', ''Program'', ''Major'', ''Level'', ''COPC Status'', ''COPC No.'',
       ''Contents Notation'', ''Accreditation'', ''CMO / PSG'', ''BOR Resolution'', ''Dean''}
      \<subseteq> trim ` set hs"
    by (simp only: validateHeaders_None_iff)
next
  assume "validateHeaders hs \<noteq> None"
  then have "\<not> set EXPECTED_HEADERS \<subseteq> trim ` set hs"
    by (simp add: validateHeaders_None_iff)
  then show "validateHeaders hs =
          Some (''Missing expected columns: '' @
            join '', '' (filter (\<lambda>h. h \<notin> trim ` set hs) EXPECTED_HEADERS))"
    by (rule validateHeaders_Some)
next
  fix h assume "h \<in> set EXPECTED_HEADERS" "h \<notin> trim ` set hs"
  then show "\<exists>msg. validateHeaders hs = Some msg \<and> sublist h msg"
    by (rule validateHeaders_names_missing)
next
  assume "''Dean'' \<notin> trim ` set hs"
  moreover have "''Dean'' \<in> set EXPECTED_HEADERS"
    by (simp add: EXPECTED_HEADERS_def)
  ultimately show "\<exists>msg. validateHeaders hs = Some msg \<and> sublist ''Dean'' msg"
    by (intro validateHeaders_names_missing)
next
  assume "set hs = set hs'"
  then show "validateHeaders hs' = validateHeaders hs"
    by (simp add: validateHeaders_def)
next
  assume "validateHeaders hs = None"
  then show "validateHeaders (hs @ extra) = None"
    by (auto simp: validateHeaders_None_iff)
next
  assume "name \<noteq> []"
  then show "parseXlsxFirstSheet (Workbook ((name, r # rs) # others)) =
          (case validateHeaders (map fst r) of
             None \<Rightarrow> Inr (map to_ProgramRow (r # rs))
           | Some msg \<Rightarrow> Inl (Error msg))"
    by (simp split: option.split)
next
  assume a: "name \<noteq> [] \<and> validateHeaders (map fst r) = Some msg"
  then have p: "parseXlsxFirstSheet (Workbook ((name, r # rs) # others)) = Inl (Error msg)"
    by simp
  then show "loaded (onFileSelected (Some (Workbook ((name, r # rs) # others))) st) = None"
    by (simp add: onFileSelected_def)
  from p show "error (onFileSelected (Some (Workbook ((name, r # rs) # others))) st) = Some msg"
    by (simp add: onFileSelected_def)
next
  assume "name \<noteq> []"
  then show "parseXlsxFirstSheet (Workbook ((name, []) # others)) = Inr []"
    by simp
qed

theorem validateHeaders_missing_columns_witness:
  "validateHeaders [''Dean '', '' Campus'', ''College'', ''Program'', ''Level'', ''COPC Status'',
       ''COPC No.'', ''Remarks'', ''Contents Notation'', ''CMO / PSG'', ''BOR Resolution'']
     = Some ''Missing expected columns: Major, Accreditation''
   \<and> parseXlsxFirstSheet (Workbook [(''Sheet1'', sheetWithoutDean)])
     = Inl (Error ''Missing expected columns: Dean'')"
proof -
  let ?hs = "[''Dean '', '' Campus'', ''College'', ''Program'', ''Level'', ''COPC Status'',
       ''COPC No.'', ''Remarks'', ''Contents Notation'', ''CMO / PSG'', ''BOR Resolution'']"
  have t: "map trim ?hs = [''Dean'', ''Campus'', ''College'', ''Program'', ''Level'', ''COPC Status'',
       ''COPC No.'', ''Remarks'', ''Contents Notation'', ''CMO / PSG'', ''BOR Resolution'']"
    by (simp add: string_eval)
  have m: "filter (\<lambda>h. h \<notin> trim ` set ?hs) EXPECTED_HEADERS = [''Major'', ''Accreditation'']"
    unfolding set_map [symmetric] t by (simp add: EXPECTED_HEADERS_def)
  have n: "validateHeaders ?hs \<noteq> None"
    unfolding validateHeaders_None_iff set_map [symmetric] t by (simp add: EXPECTED_HEADERS_def)
  have 1: "validateHeaders ?hs = Some ''Missing expected columns: Major, Accreditation''"
    using validateHeaders_missing_columns [of ?hs] n unfolding m by simp
  have k: "map fst (hd sheetWithoutDean) = [''Campus'', ''College'', ''Program'', ''Major'', ''Level'',
      ''COPC Status'', ''COPC No.'', ''Contents Notation'', ''Accreditation'', ''CMO / PSG'',
      ''BOR Resolution'']"
    by (simp add: sheetWithoutDean_def exampleSheetRow_def)
  have kt: "map trim (map fst (hd sheetWithoutDean)) = map fst (hd sheetWithoutDean)"
    unfolding k by (simp add: string_eval)
  have v: "validateHeaders (map fst (hd sheetWithoutDean)) = Some ''Missing expected columns: Dean''"
    unfolding validateHeaders_def Let_def kt unfolding k by (simp add: EXPECTED_HEADERS_def)
  have s: "sheetWithoutDean = hd sheetWithoutDean # []"
    by (simp add: sheetWithoutDean_def)
  have 2: "parseXlsxFirstSheet (Workbook [(''Sheet1'', sheetWithoutDean)])
     = Inl (Error ''Missing expected columns: Dean'')"
    by (subst s) (simp add: v)
  from 1 2 show ?thesis by (rule conjI)
qed

text \<open>
  C10. A first sheet without data rows parses to the empty list, whatever its columns, and
  loads as an empty data set without an error. For a workbook with a named first sheet the
  parse fails only when there is a data row and \<open>validateHeaders\<close> rejects its keys.
\<close>

theorem parseXlsxFirstSheet_no_rows:
  "(name \<noteq> [] \<longrightarrow> parseXlsxFirstSheet (Workbook ((name, []) # others)) = Inr [])
   \<and> (name \<noteq> [] \<longrightarrow>
        loaded (onFileSelected (Some (Workbook ((name, []) # others))) st) =
          Some \<lparr>raw = [], bambang = [], removedNonBambangCount = 0\<rparr>
        \<and> error (onFileSelected (Some (Workbook ((name, []) # others))) st) = None)
   \<and> (name \<noteq> [] \<and> parseXlsxFirstSheet (Workbook ((name, rowsArr) # others)) = Inl e \<longrightarrow>
        rowsArr \<noteq> [] \<and>
        (\<exists>msg. validateHeaders (map fst (hd rowsArr)) = Some msg \<and> e = Error msg))"
proof (intro conjI impI)
  assume "name \<noteq> []"
  then show p: "parseXlsxFirstSheet (Workbook ((name, []) # others)) = Inr []"
    by simp
  then show "loaded (onFileSelected (Some (Workbook ((name, []) # others))) st) =
          Some \<lparr>raw = [], bambang = [], removedNonBambangCount = 0\<rparr>"
    by (simp add: onFileSelected_def)
  from p show "error (onFileSelected (Some (Workbook ((name, []) # others))) st) = None"
    by (simp add: onFileSelected_def)
next
  assume a: "name \<noteq> [] \<and> parseXlsxFirstSheet (Workbook ((name, rowsArr) # others)) = Inl e"
  then show "rowsArr \<noteq> []"
    by auto
  from a show "\<exists>msg. validateHeaders (map fst (hd rowsArr)) = Some msg \<and> e = Error msg"
    by (cases rowsArr) (auto split: option.splits)
qed

theorem parseXlsxFirstSheet_no_rows_witness:
  "parseXlsxFirstSheet (Workbook [(''Sheet1'', [])]) = Inr []
   \<and> parseXlsxFirstSheet (Workbook [(''Sheet1'', [[(''Remarks'', Str ''none'')]])])
     = Inl (Error (''Missing expected columns: Campus, College, Program, Major, Level, '' @
         ''COPC Status, COPC No., Contents Notation, Accreditation, CMO / PSG, BOR Resolution, Dean''))"
proof -
  have 1: "parseXlsxFirstSheet (Workbook [(''Sheet1'', [])]) = Inr []"
    using parseXlsxFirstSheet_no_rows [of "''Sheet1''" "[]"] by simp
  have t: "map trim [''Remarks''] = [''Remarks'']"
    by (simp add: string_eval)
  have 2: "parseXlsxFirstSheet (Workbook [(''Sheet1'', [[(''Remarks'', Str ''none'')]])])
     = Inl (Error (''Missing expected columns: Campus, College, Program, Major, Level, '' @
         ''COPC Status, COPC No., Contents Notation, Accreditation, CMO / PSG, BOR Resolution, Dean''))"
    by (simp add: validateHeaders_def Let_def t [simplified] EXPECTED_HEADERS_def)
  from 1 2 show ?thesis by (rule conjI)
qed

section \<open>CSV export and its round trip\<close>





















end
